theory Spec2Isabelle
  imports Main "HOL-Library.Multiset" "HOL-Library.AList"
begin

section \<open>Data model of the learning engine\<close>

text \<open>
  The development embeds \<^verbatim>\<open>src/services/LearningEngine.ts\<close>.
  JavaScript numbers that the engine only counts with are integers here.  A calendar date
  string \<^verbatim>\<open>YYYY-MM-DD\<close> is the number of its day since the epoch, an instant
  (\<^verbatim>\<open>new Date()\<close>) is its number of milliseconds since the epoch.  The engine only ever
  stores date strings made by \<^verbatim>\<open>getTodayString\<close> and \<^verbatim>\<open>computeNextDue\<close>, which have no
  time part.  The clock reads of one call are one instant \<open>now\<close>.
\<close>

record Word =
  id_w :: string
  spanish :: string
  english :: string
  category :: string
  pronunciation :: "string option"
  example :: "string option"

record WordStats =
  wordId :: string
  seen :: int
  correct :: int
  wrong :: int
  streak :: int
  level :: int
  lastSeen :: "int option"
  nextDue :: "int option"
  hardFlag :: bool
  lastWrongDate :: "int option"

datatype LearningResult = Correct | Wrong | Skipped

subsection \<open>Utility functions\<close>

definition msPerDay :: int where
  "msPerDay = 86400000"

text \<open>\<^verbatim>\<open>new Date().toISOString().split('T')[0]\<close>: the UTC day of the instant.\<close>

definition getTodayString :: "int \<Rightarrow> int" where
  "getTodayString now = now div msPerDay"

text \<open>\<^verbatim>\<open>new Date(dateString)\<close> of a date-only string: midnight UTC of that day.\<close>

definition parseDate :: "int \<Rightarrow> int" where
  "parseDate d = d * msPerDay"

text \<open>
  \<^verbatim>\<open>getDate\<close> and \<^verbatim>\<open>setDate\<close> work on the local wall clock.  The time zone of the
  runtime is the pair of the language's conversions: \<open>localTime\<close> takes an instant to
  its local time value, \<open>utcTime\<close> takes a local time value back to an instant.
  \<^verbatim>\<open>setDate(getDate() + days)\<close> takes the local time value of the date, moves it by
  whole days and converts the result back; across a daylight-saving change the instant
  moves by an hour more or less than \<open>days\<close> times 24 hours.
\<close>

record Zone =
  localTime :: "int \<Rightarrow> int"
  utcTime :: "int \<Rightarrow> int"

definition addDays :: "Zone \<Rightarrow> int \<Rightarrow> int \<Rightarrow> int" where
  "addDays z date days = utcTime z (localTime z date + days * msPerDay)"

definition isDue :: "int \<Rightarrow> int option \<Rightarrow> bool" where
  "isDue now nd =
     (case nd of
        None \<Rightarrow> True
      | Some d \<Rightarrow> parseDate d \<le> parseDate (getTodayString now))"

definition wasWrongRecently :: "Zone \<Rightarrow> int \<Rightarrow> int option \<Rightarrow> int \<Rightarrow> bool" where
  "wasWrongRecently z now lwd days =
     (case lwd of
        None \<Rightarrow> False
      | Some d \<Rightarrow> (let cutoff = addDays z now (- days) in parseDate d \<ge> cutoff))"

subsection \<open>The interval table and the due date\<close>

definition SRS_INTERVALS :: "int \<Rightarrow> int option" where
  "SRS_INTERVALS =
     [0 \<mapsto> 0, 1 \<mapsto> 1, 2 \<mapsto> 3, 3 \<mapsto> 7, 4 \<mapsto> 14, 5 \<mapsto> 30]"

text \<open>\<^verbatim>\<open>SRS_INTERVALS[Math.min(level, 5)] || 0\<close>: a missing entry reads as 0 days.\<close>

definition computeNextDue :: "Zone \<Rightarrow> int \<Rightarrow> int \<Rightarrow> int" where
  "computeNextDue z now lv =
     (let days = (case SRS_INTERVALS (min lv 5) of Some d \<Rightarrow> d | None \<Rightarrow> 0);
          nextDate = addDays z now days
      in getTodayString nextDate)"

subsection \<open>Objects used as dictionaries\<close>

text \<open>
  The engine uses plain objects as dictionaries: the statistics read from the store,
  keyed by word identifier, and the object literals \<^verbatim>\<open>byCategory\<close>, keyed by category.
  Two points of the language show through.  A read \<^verbatim>\<open>obj[k]\<close> of a key that is not
  an own property finds the member inherited from \<^verbatim>\<open>Object.prototype\<close> when \<open>k\<close>
  names one; all of these are functions or objects, hence truthy and without a
  \<^verbatim>\<open>push\<close> method.  And \<^verbatim>\<open>Object.keys\<close> lists the keys that are array indices first,
  in ascending numeric order, and the other keys after them in creation order.
\<close>

type_synonym 'v JsObject = "(string \<times> 'v) list"

definition objectPrototypeKeys :: "string list" where
  "objectPrototypeKeys =
     [''constructor'', ''__proto__'', ''hasOwnProperty'', ''isPrototypeOf'',
      ''propertyIsEnumerable'', ''toLocaleString'', ''toString'', ''valueOf'',
      ''__defineGetter__'', ''__defineSetter__'', ''__lookupGetter__'',
      ''__lookupSetter__'']"

definition decimalValue :: "string \<Rightarrow> int" where
  "decimalValue s = foldl (\<lambda>n c. 10 * n + (of_char c - 48)) 0 s"

text \<open>An array index is the canonical decimal numeral of a number below \<open>2^32 - 1\<close>.\<close>

definition arrayIndex :: "string \<Rightarrow> int option" where
  "arrayIndex s =
     (if s \<noteq> [] \<and> list_all (\<lambda>c. c \<in> set ''0123456789'') s
         \<and> (s = ''0'' \<or> hd s \<noteq> CHR ''0'') \<and> decimalValue s < 4294967295
      then Some (decimalValue s) else None)"

definition objectKeys :: "'v JsObject \<Rightarrow> string list" where
  "objectKeys obj =
     (let ks = map fst obj
      in sort_key (\<lambda>k. case arrayIndex k of Some n \<Rightarrow> n | None \<Rightarrow> 0)
           (filter (\<lambda>k. arrayIndex k \<noteq> None) ks)
         @ filter (\<lambda>k. arrayIndex k = None) ks)"

text \<open>
  When the engine finds an inherited member where it looks for a statistics record, it
  reads the properties \<^verbatim>\<open>seen\<close>, \<^verbatim>\<open>nextDue\<close>, \<^verbatim>\<open>lastWrongDate\<close> and
  \<^verbatim>\<open>hardFlag\<close> of that member.  On such a member \<^verbatim>\<open>seen\<close> is \<^verbatim>\<open>undefined\<close> or
  \<^verbatim>\<open>NaN\<close> and so never \<^verbatim>\<open>=== 0\<close>, its counters and its level are never numbers, and
  the other three properties are \<^verbatim>\<open>undefined\<close> until the engine writes them there.
  The inherited members are objects of the page, not of the store; what the engine
  finds on them is a parameter of every operation that looks a record up.
\<close>

record Member =
  m_nextDue :: "int option"
  m_lastWrongDate :: "int option"
  m_hardFlag :: bool

type_synonym Members = "string \<Rightarrow> Member"

type_synonym StatsMap = "string \<rightharpoonup> WordStats"

datatype Lookup = Missing | Own WordStats | Inherited Member

text \<open>\<^verbatim>\<open>allStats[k]\<close>\<close>

definition lookupStats :: "Members \<Rightarrow> StatsMap \<Rightarrow> string \<Rightarrow> Lookup" where
  "lookupStats members allStats k =
     (case allStats k of
        Some s \<Rightarrow> Own s
      | None \<Rightarrow> if k \<in> set objectPrototypeKeys then Inherited (members k) else Missing)"

subsection \<open>The persisted store\<close>

text \<open>
  The key-value store \<^verbatim>\<open>idb-keyval\<close> is an external collaborator.  Its state is
  what is stored under a key (nothing, or a value), and each call into it either
  succeeds or rejects with an error; which of the two happens is given to every
  operation as its \<open>Faults\<close>.
\<close>

datatype storage_error = StorageError string

record Faults =
  get_fault :: "storage_error option"
  set_fault :: "storage_error option"

type_synonym Storage = "StatsMap option"

definition idb_get :: "Faults \<Rightarrow> 'a option \<Rightarrow> storage_error + 'a option" where
  "idb_get io st = (case get_fault io of Some e \<Rightarrow> Inl e | None \<Rightarrow> Inr st)"

definition idb_set :: "Faults \<Rightarrow> Storage \<Rightarrow> StatsMap \<Rightarrow> storage_error + Storage" where
  "idb_set io st v = (case set_fault io of Some e \<Rightarrow> Inl e | None \<Rightarrow> Inr (Some v))"

text \<open>\<^verbatim>\<open>try { return (await get(KEY)) || {} } catch { return {} }\<close>\<close>

definition getWordStats :: "Faults \<Rightarrow> Storage \<Rightarrow> StatsMap" where
  "getWordStats io st =
     (case idb_get io st of
        Inl e \<Rightarrow> Map.empty
      | Inr None \<Rightarrow> Map.empty
      | Inr (Some stats) \<Rightarrow> stats)"

definition saveWordStats :: "Faults \<Rightarrow> Storage \<Rightarrow> StatsMap \<Rightarrow> storage_error + Storage" where
  "saveWordStats io st stats = idb_set io st stats"

text \<open>\<^verbatim>\<open>try { return (await get(KEY)) || 0 } catch { return 0 }\<close>, on the streak's slot.\<close>

definition getStreak :: "Faults \<Rightarrow> int option \<Rightarrow> int" where
  "getStreak io slot =
     (case idb_get io slot of
        Inl e \<Rightarrow> 0
      | Inr None \<Rightarrow> 0
      | Inr (Some n) \<Rightarrow> n)"

subsection \<open>The result processor\<close>

definition freshStats :: "string \<Rightarrow> WordStats" where
  "freshStats w =
     \<lparr> wordId = w, seen = 0, correct = 0, wrong = 0, streak = 0, level = 0,
       lastSeen = None, nextDue = None, hardFlag = False, lastWrongDate = None \<rparr>"

text \<open>
  Lines 206 to 243 of \<^verbatim>\<open>updateStatsOnResult\<close>: the record that is written back,
  from the record found in the dictionary (or none), the result and the clock.
\<close>

definition statsAfterResult ::
  "Zone \<Rightarrow> int \<Rightarrow> string \<Rightarrow> WordStats option \<Rightarrow> LearningResult \<Rightarrow> WordStats" where
  "statsAfterResult z now w found result =
     (let today = getTodayString now;
          stats0 = (case found of Some s \<Rightarrow> s | None \<Rightarrow> freshStats w);
          stats1 = stats0\<lparr> seen := seen stats0 + 1, lastSeen := Some today \<rparr>;
          stats2 =
            (case result of
               Correct \<Rightarrow>
                 (let c = stats1\<lparr> correct := correct stats1 + 1, streak := streak stats1 + 1 \<rparr>
                  in if streak c \<ge> 2 \<and> level c < 5 then c\<lparr> level := level c + 1 \<rparr> else c)
             | Wrong \<Rightarrow>
                 (let c = stats1\<lparr> wrong := wrong stats1 + 1, streak := 0,
                                   lastWrongDate := Some today \<rparr>
                  in if level c > 0 then c\<lparr> level := level c - 1 \<rparr> else c)
             | Skipped \<Rightarrow> stats1)
      in stats2\<lparr> nextDue := Some (computeNextDue z now (level stats2)) \<rparr>)"

text \<open>
  For an identifier that names an inherited member and has no stored record, the
  dictionary that \<^verbatim>\<open>updateStatsOnResult\<close> hands to the store holds that member, a
  function, and the store rejects it: such a call is a call whose write is rejected, and
  its faults say so.
\<close>

definition updateStatsOnResult ::
  "Zone \<Rightarrow> Faults \<Rightarrow> Storage \<Rightarrow> int \<Rightarrow> string \<Rightarrow> LearningResult
     \<Rightarrow> storage_error + (WordStats \<times> Storage)" where
  "updateStatsOnResult z io st now w result =
     (let allStats = getWordStats io st;
          stats = statsAfterResult z now w (allStats w) result;
          allStats' = allStats(w \<mapsto> stats)
      in case saveWordStats io st allStats' of
           Inl e \<Rightarrow> Inl e
         | Inr st' \<Rightarrow> Inr (stats, st'))"

text \<open>
  \<^verbatim>\<open>toggleHardFlag\<close> creates a record where the lookup finds nothing and flips the
  flag of what the lookup finds otherwise: of the stored record, or of the inherited
  member, in which case the dictionary is saved as it was read.  The first component of
  the result is what the inherited members hold afterwards.
\<close>

definition toggleHardFlag ::
  "Members \<Rightarrow> Faults \<Rightarrow> Storage \<Rightarrow> string
     \<Rightarrow> Members \<times> (storage_error + (bool \<times> Storage))" where
  "toggleHardFlag members io st w =
     (let allStats = getWordStats io st
      in case lookupStats members allStats w of
           Missing \<Rightarrow>
             (let allStats' = allStats(w \<mapsto> (freshStats w)\<lparr> hardFlag := True \<rparr>)
              in (members,
                  case saveWordStats io st allStats' of
                    Inl e \<Rightarrow> Inl e
                  | Inr st' \<Rightarrow> Inr (True, st')))
         | Own s \<Rightarrow>
             (let flag = \<not> hardFlag s;
                  allStats' = allStats(w \<mapsto> s\<lparr> hardFlag := flag \<rparr>)
              in (members,
                  case saveWordStats io st allStats' of
                    Inl e \<Rightarrow> Inl e
                  | Inr st' \<Rightarrow> Inr (flag, st')))
         | Inherited m \<Rightarrow>
             (let flag = \<not> m_hardFlag m
              in (members(w := m\<lparr> m_hardFlag := flag \<rparr>),
                  case saveWordStats io st allStats of
                    Inl e \<Rightarrow> Inl e
                  | Inr st' \<Rightarrow> Inr (flag, st'))))"

section \<open>The daily queue\<close>

subsection \<open>Classification\<close>

text \<open>
  The five local arrays of \<^verbatim>\<open>buildDailyQueue\<close> that its first loop fills
  (\<^verbatim>\<open>dueWords\<close>, \<^verbatim>\<open>recentlyWrong\<close>, \<^verbatim>\<open>hardWords\<close>, \<^verbatim>\<open>newWords\<close>,
  \<^verbatim>\<open>seenWords\<close>); the suffix keeps them apart from the fields of the returned queue.
\<close>

record Classified =
  dueWords_b :: "Word list"
  recentlyWrong_b :: "Word list"
  hardWords_b :: "Word list"
  newWords_b :: "Word list"
  seenWords_b :: "Word list"

definition noneClassified :: Classified where
  "noneClassified =
     \<lparr> dueWords_b = [], recentlyWrong_b = [], hardWords_b = [], newWords_b = [],
       seenWords_b = [] \<rparr>"

text \<open>The branch of the loop body for a word that has been seen (lines 320 to 335).\<close>

definition classifySeen ::
  "Zone \<Rightarrow> int \<Rightarrow> Classified \<Rightarrow> Word \<Rightarrow> int option \<Rightarrow> int option \<Rightarrow> bool \<Rightarrow> Classified" where
  "classifySeen z now b word due lastWrong hard =
     (let b1 = b\<lparr> seenWords_b := seenWords_b b @ [word] \<rparr>;
          b2 = (if isDue now due
                then b1\<lparr> dueWords_b := dueWords_b b1 @ [word] \<rparr> else b1);
          b3 = (if wasWrongRecently z now lastWrong 7
                then b2\<lparr> recentlyWrong_b := recentlyWrong_b b2 @ [word] \<rparr> else b2)
      in if hard then b3\<lparr> hardWords_b := hardWords_b b3 @ [word] \<rparr> else b3)"

text \<open>
  The body of the loop over the corpus (lines 313 to 337).  The test
  \<^verbatim>\<open>!stats || stats.seen === 0\<close> sends a word to the new words when the lookup finds
  nothing or a record never seen; an inherited member is truthy and its \<^verbatim>\<open>seen\<close> is
  not 0.
\<close>

definition classifyWord ::
  "Zone \<Rightarrow> Members \<Rightarrow> StatsMap \<Rightarrow> int \<Rightarrow> Classified \<Rightarrow> Word \<Rightarrow> Classified" where
  "classifyWord z members allStats now b word =
     (case lookupStats members allStats (id_w word) of
        Missing \<Rightarrow> b\<lparr> newWords_b := newWords_b b @ [word] \<rparr>
      | Own stats \<Rightarrow>
          if seen stats = 0 then b\<lparr> newWords_b := newWords_b b @ [word] \<rparr>
          else classifySeen z now b word (nextDue stats) (lastWrongDate stats) (hardFlag stats)
      | Inherited m \<Rightarrow>
          classifySeen z now b word (m_nextDue m) (m_lastWrongDate m) (m_hardFlag m))"

definition classify ::
  "Zone \<Rightarrow> Members \<Rightarrow> StatsMap \<Rightarrow> int \<Rightarrow> Word list \<Rightarrow> Classified" where
  "classify z members allStats now words =
     foldl (classifyWord z members allStats now) noneClassified words"

definition priorityCount :: "Classified \<Rightarrow> int" where
  "priorityCount b =
     int (length (dueWords_b b)) + int (length (recentlyWrong_b b))
       + int (length (hardWords_b b))"

subsection \<open>Shuffling\<close>

text \<open>
  \<^verbatim>\<open>Math.random()\<close> is the engine's only source of randomness.  A generator is the
  sequence of its draws; the index \<^verbatim>\<open>Math.floor(Math.random() * (i + 1))\<close>, which lies
  in \<open>0..i\<close>, is the draw reduced modulo \<open>i + 1\<close>, so every sequence of indices
  the loop can see comes from some generator.  The second component counts the draws
  used so far.
\<close>

type_synonym Rng = "nat \<Rightarrow> nat"

fun shuffleLoop :: "Rng \<Rightarrow> nat \<Rightarrow> nat \<Rightarrow> 'a list \<Rightarrow> 'a list \<times> nat" where
  "shuffleLoop rnd k 0 shuffled = (shuffled, k)"
| "shuffleLoop rnd k (Suc i') shuffled =
     (let i = Suc i';
          j = rnd k mod (i + 1)
      in shuffleLoop rnd (Suc k) i' (shuffled[i := shuffled ! j, j := shuffled ! i]))"

definition shuffleArray :: "Rng \<Rightarrow> nat \<Rightarrow> 'a list \<Rightarrow> 'a list \<times> nat" where
  "shuffleArray rnd k array = shuffleLoop rnd k (length array - 1) array"

subsection \<open>Assembly\<close>

record DailyQueue =
  dueWords :: "Word list"
  recentlyWrong :: "Word list"
  hardWords :: "Word list"
  newWords :: "Word list"
  mixedReview :: "Word list"
  total :: nat
  estimatedMinutes :: nat

text \<open>
  \<^verbatim>\<open>Math.ceil(total * 0.5)\<close> of a natural number is \<open>(total + 1) div 2\<close>;
  \<^verbatim>\<open>slice(0, n)\<close> is only called with \<open>n \<ge> 0\<close>.  \<^verbatim>\<open>includes\<close> compares
  words as objects; in a corpus whose entries are pairwise different objects with
  pairwise different contents (one without repeated identifiers, for instance) this is
  the equality of the records.  The five shuffles draw from the generator in the order
  in which the code calls them.
\<close>

definition buildDailyQueue ::
  "Zone \<Rightarrow> Members \<Rightarrow> Faults \<Rightarrow> Storage \<Rightarrow> int \<Rightarrow> Rng \<Rightarrow> Word list \<Rightarrow> int
     \<Rightarrow> DailyQueue" where
  "buildDailyQueue z members io st now rnd words dailyGoal =
     (let allStats = getWordStats io st;
          b = classify z members allStats now words;
          newWordsToAdd = max 0 (dailyGoal - priorityCount b);
          (shuffledNew, k1) = shuffleArray rnd 0 (newWords_b b);
          selectedNewWords = take (nat newWordsToAdd) shuffledNew;
          remainingForMix = dailyGoal - priorityCount b - int (length selectedNewWords);
          (shuffledSeen, k2) =
             shuffleArray rnd k1
               (filter (\<lambda>w. w \<notin> set (dueWords_b b) \<and> w \<notin> set (recentlyWrong_b b)
                              \<and> w \<notin> set (hardWords_b b)) (seenWords_b b));
          mixed = take (nat (max 0 remainingForMix)) shuffledSeen;
          n = length (dueWords_b b) + length (recentlyWrong_b b) + length (hardWords_b b)
                + length selectedNewWords + length mixed;
          (dueShuffled, k3) = shuffleArray rnd k2 (dueWords_b b);
          (wrongShuffled, k4) = shuffleArray rnd k3 (recentlyWrong_b b);
          (hardShuffled, k5) = shuffleArray rnd k4 (hardWords_b b)
      in \<lparr> dueWords = dueShuffled, recentlyWrong = wrongShuffled, hardWords = hardShuffled,
           newWords = selectedNewWords, mixedReview = mixed, total = n,
           estimatedMinutes = (n + 1) div 2 \<rparr>)"

section \<open>The flat session queue\<close>

datatype js_error = TypeError

text \<open>The body of the grouping loop (lines 393 to 398).\<close>

definition groupWord :: "Word list JsObject \<Rightarrow> Word \<Rightarrow> js_error + Word list JsObject" where
  "groupWord byCategory word =
     (case map_of byCategory (category word) of
        Some g \<Rightarrow> Inr (AList.update (category word) (g @ [word]) byCategory)
      | None \<Rightarrow>
          if category word \<in> set objectPrototypeKeys then Inl TypeError
          else Inr (byCategory @ [(category word, [word])]))"

fun groupWords :: "Word list JsObject \<Rightarrow> Word list \<Rightarrow> js_error + Word list JsObject" where
  "groupWords byCategory [] = Inr byCategory"
| "groupWords byCategory (word # words) =
     (case groupWord byCategory word of
        Inl e \<Rightarrow> Inl e
      | Inr byCategory' \<Rightarrow> groupWords byCategory' words)"

text \<open>The inner loop over the categories (lines 405 to 409), for one value of the index.\<close>

fun emitPass :: "Word list JsObject \<Rightarrow> nat \<Rightarrow> Word list \<Rightarrow> string list \<Rightarrow> Word list" where
  "emitPass byCategory index result [] = result"
| "emitPass byCategory index result (cat # categories) =
     emitPass byCategory index
       (case map_of byCategory cat of
          Some g \<Rightarrow> if length g > index then result @ [g ! index] else result
        | None \<Rightarrow> result)
       categories"

text \<open>The outer loop (lines 404 to 411); not returning is the value \<open>None\<close>.\<close>

partial_function (option) interleaveLoop ::
  "string list \<Rightarrow> Word list JsObject \<Rightarrow> nat \<Rightarrow> nat \<Rightarrow> Word list \<Rightarrow> Word list option" where
  "interleaveLoop categories byCategory n index result =
     (if length result < n
      then interleaveLoop categories byCategory n (index + 1)
             (emitPass byCategory index result categories)
      else Some result)"

declare interleaveLoop.simps [code]

definition interleaveByCategory :: "Word list \<Rightarrow> (js_error + Word list) option" where
  "interleaveByCategory words =
     (case groupWords [] words of
        Inl e \<Rightarrow> Some (Inl e)
      | Inr byCategory \<Rightarrow>
          map_option Inr
            (interleaveLoop (objectKeys byCategory) byCategory (length words) 0 []))"

text \<open>The concatenation of lines 375 to 381.\<close>

definition prioritized :: "DailyQueue \<Rightarrow> Word list" where
  "prioritized queue =
     dueWords queue
     @ filter (\<lambda>w. w \<notin> set (dueWords queue)) (recentlyWrong queue)
     @ filter (\<lambda>w. w \<notin> set (dueWords queue) \<and> w \<notin> set (recentlyWrong queue))
         (hardWords queue)
     @ newWords queue
     @ mixedReview queue"

definition getDailySessionQueue ::
  "Zone \<Rightarrow> Members \<Rightarrow> Faults \<Rightarrow> Storage \<Rightarrow> int \<Rightarrow> Rng \<Rightarrow> Word list \<Rightarrow> int
     \<Rightarrow> (js_error + Word list) option" where
  "getDailySessionQueue z members io st now rnd words dailyGoal =
     (let queue = buildDailyQueue z members io st now rnd words dailyGoal
      in interleaveByCategory (prioritized queue))"

section \<open>The progress summary\<close>

text \<open>
  \<^verbatim>\<open>getProgressSummary\<close> (lines 466 to 528).  The sums \<^verbatim>\<open>totalCorrect\<close> and
  \<^verbatim>\<open>totalSeen\<close> turn into \<^verbatim>\<open>NaN\<close>, here \<open>None\<close>, once the counters of an inherited
  member are added to them.  The histogram \<^verbatim>\<open>byLevel\<close> is the function from its keys to
  their counts, 0 for a key it does not hold; the key of a level that is
  \<^verbatim>\<open>undefined\<close> is \<open>None\<close>.  \<^verbatim>\<open>byCategory\<close> is an object literal again: for a
  category that names an inherited member no entry is made and the counts go to that
  member.  The fields \<open>streak_p\<close>, \<open>byLevel_p\<close> and \<open>byCategory_p\<close> of the
  summary are its \<^verbatim>\<open>streak\<close>, \<^verbatim>\<open>byLevel\<close> and \<^verbatim>\<open>byCategory\<close>.  The percentage \<^verbatim>\<open>Math.round((totalCorrect / totalSeen) * 100)\<close> is computed
  in floating point; it is the parameter \<open>pct\<close>.
\<close>

record CategoryCount =
  total_c :: int
  learned_c :: int

record ProgressSummary =
  totalWords :: nat
  wordsLearned :: int
  wordsMastered :: int
  wordsInProgress :: int
  wordsNew :: int
  dueToday :: int
  streak_p :: int
  accuracy :: int
  byLevel_p :: "int option \<Rightarrow> int"
  byCategory_p :: "CategoryCount JsObject"

record Tally =
  wordsLearned_t :: int
  wordsMastered_t :: int
  wordsInProgress_t :: int
  wordsNew_t :: int
  dueToday_t :: int
  totalCorrect_t :: "int option"
  totalSeen_t :: "int option"
  byLevel_t :: "int option \<Rightarrow> int"
  byCategory_t :: "CategoryCount JsObject"

definition noneTallied :: Tally where
  "noneTallied =
     \<lparr> wordsLearned_t = 0, wordsMastered_t = 0, wordsInProgress_t = 0, wordsNew_t = 0,
       dueToday_t = 0, totalCorrect_t = Some 0, totalSeen_t = Some 0,
       byLevel_t = (\<lambda>k. 0), byCategory_t = [] \<rparr>"

text \<open>Lines 485 to 488.\<close>

definition countCategory :: "CategoryCount JsObject \<Rightarrow> string \<Rightarrow> CategoryCount JsObject" where
  "countCategory cats c =
     (let cats1 =
            (case map_of cats c of
               Some e \<Rightarrow> cats
             | None \<Rightarrow>
                 if c \<in> set objectPrototypeKeys then cats
                 else cats @ [(c, \<lparr> total_c = 0, learned_c = 0 \<rparr>)])
      in case map_of cats1 c of
           Some e \<Rightarrow> AList.update c (e\<lparr> total_c := total_c e + 1 \<rparr>) cats1
         | None \<Rightarrow> cats1)"

text \<open>\<^verbatim>\<open>byCategory[word.category].learned += 1\<close>\<close>

definition countLearned :: "CategoryCount JsObject \<Rightarrow> string \<Rightarrow> CategoryCount JsObject" where
  "countLearned cats c =
     (case map_of cats c of
        Some e \<Rightarrow> AList.update c (e\<lparr> learned_c := learned_c e + 1 \<rparr>) cats
      | None \<Rightarrow> cats)"

text \<open>Lines 491 and 492.\<close>

definition tallyNew :: "Tally \<Rightarrow> Tally" where
  "tallyNew t =
     t\<lparr> wordsNew_t := wordsNew_t t + 1,
        byLevel_t := (byLevel_t t)(Some 0 := byLevel_t t (Some 0) + 1) \<rparr>"

text \<open>The body of the loop over the corpus (lines 481 to 514).\<close>

definition tallyWord :: "Members \<Rightarrow> StatsMap \<Rightarrow> int \<Rightarrow> Tally \<Rightarrow> Word \<Rightarrow> Tally" where
  "tallyWord members allStats now t0 word =
     (let t = t0\<lparr> byCategory_t := countCategory (byCategory_t t0) (category word) \<rparr>
      in case lookupStats members allStats (id_w word) of
           Missing \<Rightarrow> tallyNew t
         | Own stats \<Rightarrow>
             if seen stats = 0 then tallyNew t
             else
               (let t1 = t\<lparr> totalCorrect_t :=
                                map_option (\<lambda>n. n + correct stats) (totalCorrect_t t),
                             totalSeen_t := map_option (\<lambda>n. n + seen stats) (totalSeen_t t),
                             byLevel_t :=
                                (byLevel_t t)
                                  (Some (level stats) := byLevel_t t (Some (level stats)) + 1) \<rparr>;
                    t2 = (if level stats \<ge> 4
                          then t1\<lparr> wordsMastered_t := wordsMastered_t t1 + 1,
                                    byCategory_t :=
                                      countLearned (byCategory_t t1) (category word) \<rparr>
                          else if level stats \<ge> 1
                          then t1\<lparr> wordsLearned_t := wordsLearned_t t1 + 1,
                                    byCategory_t :=
                                      countLearned (byCategory_t t1) (category word) \<rparr>
                          else t1);
                    t3 = (if level stats < 4
                          then t2\<lparr> wordsInProgress_t := wordsInProgress_t t2 + 1 \<rparr> else t2)
                in if isDue now (nextDue stats)
                   then t3\<lparr> dueToday_t := dueToday_t t3 + 1 \<rparr> else t3)
         | Inherited m \<Rightarrow>
             (let t1 = t\<lparr> totalCorrect_t := None, totalSeen_t := None,
                           byLevel_t := (byLevel_t t)(None := byLevel_t t None + 1) \<rparr>
              in if isDue now (m_nextDue m)
                 then t1\<lparr> dueToday_t := dueToday_t t1 + 1 \<rparr> else t1))"

definition getProgressSummary ::
  "Members \<Rightarrow> (int \<Rightarrow> int \<Rightarrow> int) \<Rightarrow> Faults \<Rightarrow> Faults \<Rightarrow> Storage \<Rightarrow> int option \<Rightarrow> int
     \<Rightarrow> Word list \<Rightarrow> ProgressSummary" where
  "getProgressSummary members pct io io' st slot now words =
     (let allStats = getWordStats io st;
          streak = getStreak io' slot;
          t = foldl (tallyWord members allStats now) noneTallied words
      in \<lparr> totalWords = length words,
           wordsLearned = wordsLearned_t t,
           wordsMastered = wordsMastered_t t,
           wordsInProgress = wordsInProgress_t t,
           wordsNew = wordsNew_t t,
           dueToday = dueToday_t t,
           streak_p = streak,
           accuracy =
             (case (totalCorrect_t t, totalSeen_t t) of
                (Some c, Some s) \<Rightarrow> if s > 0 then pct c s else 0
              | _ \<Rightarrow> 0),
           byLevel_p = byLevel_t t,
           byCategory_p = byCategory_t t \<rparr>)"

section \<open>Vocabulary of the statements\<close>

text \<open>
  A caller applies a sequence of results to one word; each event carries the storage
  faults and the instant of its call.  A call whose write is rejected throws and leaves
  the store as it was; the trace lists the records the successful calls return.
\<close>

fun resultsTrace ::
  "Zone \<Rightarrow> Storage \<Rightarrow> string \<Rightarrow> (Faults \<times> int \<times> LearningResult) list \<Rightarrow> WordStats list" where
  "resultsTrace z st w [] = []"
| "resultsTrace z st w ((io, now, r) # evs) =
     (case updateStatsOnResult z io st now w r of
        Inl e \<Rightarrow> resultsTrace z st w evs
      | Inr (s, st') \<Rightarrow> s # resultsTrace z st' w evs)"



definition noFaults :: Faults where
  "noFaults = \<lparr> get_fault = None, set_fault = None \<rparr>"

definition readFails :: Faults where
  "readFails = \<lparr> get_fault = Some (StorageError ''read rejected''), set_fault = None \<rparr>"

definition writeFails :: Faults where
  "writeFails = \<lparr> get_fault = None, set_fault = Some (StorageError ''write rejected'') \<rparr>"

text \<open>The time zone UTC, and the inherited members as a freshly loaded page has them.\<close>

definition utc :: Zone where
  "utc = \<lparr> localTime = (\<lambda>t. t), utcTime = (\<lambda>t. t) \<rparr>"

definition pristine :: Members where
  "pristine = (\<lambda>k. \<lparr> m_nextDue = None, m_lastWrongDate = None, m_hardFlag = False \<rparr>)"

text \<open>The classification predicates of the loop body, read off a word.\<close>

definition seenWord :: "Members \<Rightarrow> StatsMap \<Rightarrow> Word \<Rightarrow> bool" where
  "seenWord members allStats w =
     (case lookupStats members allStats (id_w w) of
        Missing \<Rightarrow> False
      | Own s \<Rightarrow> seen s \<noteq> 0
      | Inherited m \<Rightarrow> True)"

definition dueWord :: "Members \<Rightarrow> StatsMap \<Rightarrow> int \<Rightarrow> Word \<Rightarrow> bool" where
  "dueWord members allStats now w =
     (case lookupStats members allStats (id_w w) of
        Missing \<Rightarrow> False
      | Own s \<Rightarrow> seen s \<noteq> 0 \<and> isDue now (nextDue s)
      | Inherited m \<Rightarrow> isDue now (m_nextDue m))"

definition wrongWord :: "Zone \<Rightarrow> Members \<Rightarrow> StatsMap \<Rightarrow> int \<Rightarrow> Word \<Rightarrow> bool" where
  "wrongWord z members allStats now w =
     (case lookupStats members allStats (id_w w) of
        Missing \<Rightarrow> False
      | Own s \<Rightarrow> seen s \<noteq> 0 \<and> wasWrongRecently z now (lastWrongDate s) 7
      | Inherited m \<Rightarrow> wasWrongRecently z now (m_lastWrongDate m) 7)"

definition hardWord :: "Members \<Rightarrow> StatsMap \<Rightarrow> Word \<Rightarrow> bool" where
  "hardWord members allStats w =
     (case lookupStats members allStats (id_w w) of
        Missing \<Rightarrow> False
      | Own s \<Rightarrow> seen s \<noteq> 0 \<and> hardFlag s
      | Inherited m \<Rightarrow> m_hardFlag m)"

text \<open>
  The interleaving as the specification words it: the groups of the corpus by category,
  each in the corpus's order, and the rounds \<open>i = 0, 1, \<dots>\<close> that take the item at
  position \<open>i\<close> of every group that has one, until the longest group is used up.
\<close>

definition categoryGroup :: "Word list \<Rightarrow> string \<Rightarrow> Word list" where
  "categoryGroup words c = filter (\<lambda>w. category w = c) words"

definition roundOf :: "'a list list \<Rightarrow> nat \<Rightarrow> 'a list" where
  "roundOf groups i = concat (map (\<lambda>g. if i < length g then [g ! i] else []) groups)"

definition longest :: "'a list list \<Rightarrow> nat" where
  "longest groups = foldr (\<lambda>g. max (length g)) groups 0"

definition rounds :: "'a list list \<Rightarrow> nat \<Rightarrow> 'a list" where
  "rounds groups k = concat (map (roundOf groups) [0 ..< k])"

definition roundRobin :: "'a list list \<Rightarrow> 'a list" where
  "roundRobin groups = rounds groups (longest groups)"

text \<open>The arrays that the loop reads for a list of keys of the dictionary.\<close>

definition ownGroups :: "Word list JsObject \<Rightarrow> string list \<Rightarrow> Word list list" where
  "ownGroups byCategory cats =
     map (\<lambda>c. case map_of byCategory c of Some g \<Rightarrow> g | None \<Rightarrow> []) cats"

subsection \<open>Example data\<close>

definition mkWord :: "string \<Rightarrow> string \<Rightarrow> Word" where
  "mkWord i c =
     \<lparr> id_w = i, spanish = i, english = i, category = c, pronunciation = None,
       example = None \<rparr>"

definition mkStats :: "string \<Rightarrow> int \<Rightarrow> int \<Rightarrow> int \<Rightarrow> WordStats" where
  "mkStats w lv str due =
     \<lparr> wordId = w, seen = 3, correct = 2, wrong = 1, streak = str, level = lv,
       lastSeen = Some 10, nextDue = Some due, hardFlag = False, lastWrongDate = Some 5 \<rparr>"

text \<open>One millisecond after midnight UTC of day 11, and noon UTC of day 11.\<close>

definition day11 :: int where
  "day11 = 11 * msPerDay + 1"

definition noon11 :: int where
  "noon11 = 11 * msPerDay + 43200000"

text \<open>
  A corpus of three words of which the first has been seen, is due on day 11, was last
  wrong on day 5 and is flagged hard, and the other two are new.
\<close>

definition smallCorpus :: "Word list" where
  "smallCorpus =
     [mkWord ''hola'' ''Greetings'', mkWord ''adios'' ''Greetings'', mkWord ''gato'' ''Animals'']"

definition smallStats :: StatsMap where
  "smallStats = [''hola'' \<mapsto> (mkStats ''hola'' 2 0 11)\<lparr> hardFlag := True \<rparr>]"

text \<open>Ten words, each seen, due on day 11, never wrong and not flagged.\<close>

definition tenIds :: "string list" where
  "tenIds =
     [''uno'', ''dos'', ''tres'', ''cuatro'', ''cinco'', ''seis'', ''siete'', ''ocho'',
      ''nueve'', ''diez'']"

definition tenCorpus :: "Word list" where
  "tenCorpus = map (\<lambda>i. mkWord i ''Numbers'') tenIds"

definition tenStats :: StatsMap where
  "tenStats =
     map_of (map (\<lambda>i. (i, (mkStats i 1 0 11)\<lparr> lastWrongDate := None \<rparr>)) tenIds)"

section \<open>Facts about the due date and the result processor\<close>

lemma addDays_utc: "addDays utc date days = date + days * msPerDay"
  by (simp add: addDays_def utc_def)

lemma computeNextDue_utc:
  "computeNextDue utc now lv =
     getTodayString now + (case SRS_INTERVALS (min lv 5) of Some d \<Rightarrow> d | None \<Rightarrow> 0)"
  by (simp add: computeNextDue_def addDays_utc getTodayString_def msPerDay_def)



lemma updateStatsOnResult_ok:
  assumes "set_fault io = None"
  shows "updateStatsOnResult z io st now w r =
           Inr (statsAfterResult z now w (getWordStats io st w) r,
                Some ((getWordStats io st)
                        (w \<mapsto> statsAfterResult z now w (getWordStats io st w) r)))"
  using assms
  by (simp add: updateStatsOnResult_def saveWordStats_def idb_set_def Let_def)

lemma updateStatsOnResult_fail:
  assumes "set_fault io = Some e"
  shows "updateStatsOnResult z io st now w r = Inl e"
  using assms
  by (simp add: updateStatsOnResult_def saveWordStats_def idb_set_def Let_def)



section \<open>Claims about the result processor\<close>



text \<open>
  C2.  The claim says that a Skipped result leaves the due date as it was, and the one
  caller that skips asks for no more than that the word be marked as seen.  The code
  recomputes the due date after every result, a skip included: in the time zone UTC, a
  record at level 2 that is due on day 13 and is skipped on day 11 comes back due on
  day 14.
\<close>

theorem skip_moves_due_date:
  "map_sum id fst
     (updateStatsOnResult utc noFaults (Some [''hola'' \<mapsto> mkStats ''hola'' 2 0 13]) day11
        ''hola'' Skipped)
     = Inr ((mkStats ''hola'' 2 0 13)\<lparr> seen := 4, lastSeen := Some 11, nextDue := Some 14 \<rparr>)
   \<and> nextDue (mkStats ''hola'' 2 0 13) = Some 13"
  by (simp add: updateStatsOnResult_def saveWordStats_def idb_set_def idb_get_def
      getWordStats_def noFaults_def statsAfterResult_def mkStats_def Let_def
      computeNextDue_utc SRS_INTERVALS_def getTodayString_def day11_def msPerDay_def)




text \<open>
  C6.  For the record stored for a word, a Wrong result whose write is not rejected
  returns a record one level lower when the level was above 0 and at the same level
  when it was 0, with the streak reset to 0, \<open>wrong\<close> one larger, \<open>lastWrongDate\<close>
  set to today and the due date recomputed from the new level.
\<close>

theorem wrong_levels_down:
  assumes "getWordStats io st w = Some s" and "set_fault io = None"
  shows "\<exists>s' st'.
           updateStatsOnResult z io st now w Wrong = Inr (s', st')
         \<and> level s' = (if 0 < level s then level s - 1 else level s)
         \<and> streak s' = 0
         \<and> wrong s' = wrong s + 1
         \<and> lastWrongDate s' = Some (getTodayString now)
         \<and> nextDue s' = Some (computeNextDue z now (level s'))"
proof -
  define s' where "s' = statsAfterResult z now w (Some s) Wrong"
  have "updateStatsOnResult z io st now w Wrong
          = Inr (s', Some ((getWordStats io st)(w \<mapsto> s')))"
    using updateStatsOnResult_ok [OF assms(2), of z st now w Wrong]
    by (simp add: assms(1) s'_def)
  moreover have "level s' = (if 0 < level s then level s - 1 else level s)
         \<and> streak s' = 0
         \<and> wrong s' = wrong s + 1
         \<and> lastWrongDate s' = Some (getTodayString now)
         \<and> nextDue s' = Some (computeNextDue z now (level s'))"
    by (simp add: s'_def statsAfterResult_def Let_def)
  ultimately show ?thesis
    by blast
qed

theorem wrong_levels_down_witness:
  "getWordStats noFaults (Some [''hola'' \<mapsto> mkStats ''hola'' 2 4 13]) ''hola''
     = Some (mkStats ''hola'' 2 4 13)
   \<and> getWordStats noFaults (Some [''hola'' \<mapsto> mkStats ''hola'' 0 4 13]) ''hola''
     = Some (mkStats ''hola'' 0 4 13)
   \<and> set_fault noFaults = None
   \<and> level (mkStats ''hola'' 2 4 13) = 2 \<and> level (mkStats ''hola'' 0 4 13) = 0
   \<and> map level
       (resultsTrace utc (Some [''hola'' \<mapsto> mkStats ''hola'' 2 4 13]) ''hola''
          [(noFaults, day11, Wrong)]) = [1]
   \<and> map nextDue
       (resultsTrace utc (Some [''hola'' \<mapsto> mkStats ''hola'' 2 4 13]) ''hola''
          [(noFaults, day11, Wrong)]) = [Some 12]
   \<and> map level
       (resultsTrace utc (Some [''hola'' \<mapsto> mkStats ''hola'' 0 4 13]) ''hola''
          [(noFaults, day11, Wrong)]) = [0]"
proof -
  have f: "set_fault noFaults = None"
    by (simp add: noFaults_def)
  have g: "getWordStats noFaults (Some [''hola'' \<mapsto> mkStats ''hola'' 2 4 13]) ''hola''
             = Some (mkStats ''hola'' 2 4 13)"
    and g0: "getWordStats noFaults (Some [''hola'' \<mapsto> mkStats ''hola'' 0 4 13]) ''hola''
             = Some (mkStats ''hola'' 0 4 13)"
    by (simp_all add: getWordStats_def idb_get_def noFaults_def)
  have l: "level (mkStats ''hola'' 2 4 13) = 2" "level (mkStats ''hola'' 0 4 13) = 0"
    by (simp_all add: mkStats_def)
  have d: "computeNextDue utc day11 1 = 12"
    by (simp add: computeNextDue_utc SRS_INTERVALS_def getTodayString_def day11_def
        msPerDay_def)
  from wrong_levels_down [OF g f, of utc day11]
  obtain s' st' where
    "updateStatsOnResult utc noFaults (Some [''hola'' \<mapsto> mkStats ''hola'' 2 4 13]) day11
       ''hola'' Wrong = Inr (s', st')"
    "level s' = 1" "nextDue s' = Some (computeNextDue utc day11 (level s'))"
    using l by auto
  moreover from wrong_levels_down [OF g0 f, of utc day11]
  obtain s0 st0 where
    "updateStatsOnResult utc noFaults (Some [''hola'' \<mapsto> mkStats ''hola'' 0 4 13]) day11
       ''hola'' Wrong = Inr (s0, st0)"
    "level s0 = 0"
    using l by auto
  ultimately show ?thesis
    using f g g0 l d by simp
qed

section \<open>Facts about classification and shuffling\<close>

lemma classifyWord_step:
  "classifyWord z members allStats now b w =
     \<lparr> dueWords_b = dueWords_b b @ filter (dueWord members allStats now) [w],
       recentlyWrong_b = recentlyWrong_b b @ filter (wrongWord z members allStats now) [w],
       hardWords_b = hardWords_b b @ filter (hardWord members allStats) [w],
       newWords_b = newWords_b b @ filter (\<lambda>w. \<not> seenWord members allStats w) [w],
       seenWords_b = seenWords_b b @ filter (seenWord members allStats) [w] \<rparr>"
  by (cases "lookupStats members allStats (id_w w)")
     (simp_all add: classifyWord_def classifySeen_def dueWord_def wrongWord_def hardWord_def
        seenWord_def Let_def)

lemma classify_foldl:
  "foldl (classifyWord z members allStats now) b ws =
     \<lparr> dueWords_b = dueWords_b b @ filter (dueWord members allStats now) ws,
       recentlyWrong_b = recentlyWrong_b b @ filter (wrongWord z members allStats now) ws,
       hardWords_b = hardWords_b b @ filter (hardWord members allStats) ws,
       newWords_b = newWords_b b @ filter (\<lambda>w. \<not> seenWord members allStats w) ws,
       seenWords_b = seenWords_b b @ filter (seenWord members allStats) ws \<rparr>"
proof (induction ws arbitrary: b)
  case Nil
  show ?case by simp
next
  case (Cons w ws)
  show ?case
    unfolding foldl_Cons Cons.IH
    by (simp add: classifyWord_step)
qed

lemma classify_buckets:
  "dueWords_b (classify z members allStats now ws) = filter (dueWord members allStats now) ws"
  "recentlyWrong_b (classify z members allStats now ws)
     = filter (wrongWord z members allStats now) ws"
  "hardWords_b (classify z members allStats now ws) = filter (hardWord members allStats) ws"
  "newWords_b (classify z members allStats now ws)
     = filter (\<lambda>w. \<not> seenWord members allStats w) ws"
  "seenWords_b (classify z members allStats now ws) = filter (seenWord members allStats) ws"
  by (simp_all add: classify_def classify_foldl noneClassified_def)

lemma shuffleLoop_mset:
  "i < length xs \<or> i = 0 \<Longrightarrow> mset (fst (shuffleLoop rnd k i xs)) = mset xs"
proof (induction i arbitrary: k xs)
  case 0
  show ?case by simp
next
  case (Suc i)
  then have len: "Suc i < length xs"
    by simp
  have j: "rnd k mod (Suc i + 1) < length xs"
    by (rule less_le_trans [OF mod_less_divisor]) (use len in simp_all)
  have "mset (xs[Suc i := xs ! (rnd k mod (Suc i + 1)), rnd k mod (Suc i + 1) := xs ! Suc i])
          = mset xs"
    using len j by (simp add: mset_swap)
  moreover have "i < length (xs[Suc i := xs ! (rnd k mod (Suc i + 1)),
                              rnd k mod (Suc i + 1) := xs ! Suc i]) \<or> i = 0"
    using len by simp
  ultimately show ?case
    using Suc.IH by (simp add: Let_def)
qed

lemma shuffleArray_mset: "mset (fst (shuffleArray rnd k xs)) = mset xs"
  unfolding shuffleArray_def by (rule shuffleLoop_mset) (cases xs; simp)

lemma shuffleArray_set: "set (fst (shuffleArray rnd k xs)) = set xs"
  using shuffleArray_mset [of rnd k xs] by (rule mset_eq_setD)

lemma shuffleArray_length: "length (fst (shuffleArray rnd k xs)) = length xs"
  using shuffleArray_mset [of rnd k xs] by (rule mset_eq_length)

lemma shuffleArray_distinct: "distinct (fst (shuffleArray rnd k xs)) = distinct xs"
  using shuffleArray_mset [of rnd k xs] by (rule mset_eq_imp_distinct_iff)

lemma shuffleArray_single: "fst (shuffleArray rnd k [x]) = [x]"
  by (simp add: shuffleArray_def)

section \<open>Claims about the recently-wrong window and storage failures\<close>

text \<open>
  C7.  The claim says that a word whose last wrong answer is exactly 7 calendar days
  before today is recently wrong, by a comparison of calendar days.  The code compares
  midnight of the date of the wrong answer with the current instant moved back 7 days,
  time of day included: in the time zone UTC, at noon of day 11, a word last wrong on
  day 4 is not recently wrong.
\<close>

theorem seven_days_ago_not_recent:
  "getTodayString noon11 - 7 = 4
   \<and> \<not> wasWrongRecently utc noon11 (Some 4) 7
   \<and> recentlyWrong_b
        (classify utc pristine
           [''hola'' \<mapsto> (mkStats ''hola'' 2 0 13)\<lparr> lastWrongDate := Some 4 \<rparr>] noon11
           [mkWord ''hola'' ''Greetings'']) = []"
  by (simp add: classify_def classifyWord_def classifySeen_def lookupStats_def
      noneClassified_def mkStats_def mkWord_def wasWrongRecently_def isDue_def parseDate_def
      addDays_utc getTodayString_def noon11_def msPerDay_def Let_def)

lemma toggleHardFlag_fail:
  assumes "set_fault io = Some e"
  shows "snd (toggleHardFlag members io st w) = Inl e"
  using assms
  by (cases "lookupStats members (getWordStats io st) w")
     (simp_all add: toggleHardFlag_def saveWordStats_def idb_set_def Let_def)

lemma toggleHardFlag_ok:
  assumes "set_fault io = None"
  shows "\<exists>y. snd (toggleHardFlag members io st w) = Inr y"
  using assms
  by (cases "lookupStats members (getWordStats io st) w")
     (auto simp: toggleHardFlag_def saveWordStats_def idb_set_def Let_def)

lemma getWordStats_rejected:
  assumes "get_fault io = Some e"
  shows "getWordStats io st = Map.empty"
  using assms by (simp add: getWordStats_def idb_get_def)

lemma getWordStats_nothing: "getWordStats noFaults None = Map.empty"
  by (simp add: getWordStats_def idb_get_def noFaults_def)

text \<open>
  C8.  The claim says that a failure of the read of the statistics map propagates out
  of the core operation.  \<open>getWordStats\<close> catches it and answers with the empty map:
  with a rejected read and a working write, \<open>updateStatsOnResult\<close> completes and
  reports success.
\<close>

theorem read_failure_swallowed_counterexample:
  "get_fault readFails = Some (StorageError ''read rejected'')
   \<and> map_sum id fst
       (updateStatsOnResult utc readFails (Some [''hola'' \<mapsto> mkStats ''hola'' 2 1 13]) day11
          ''hola'' Correct)
       = Inr ((freshStats ''hola'')
                \<lparr> seen := 1, correct := 1, streak := 1, lastSeen := Some 11,
                  nextDue := Some 11 \<rparr>)"
  by (simp add: updateStatsOnResult_def saveWordStats_def idb_set_def idb_get_def
      getWordStats_def readFails_def statsAfterResult_def freshStats_def Let_def
      computeNextDue_utc SRS_INTERVALS_def getTodayString_def day11_def msPerDay_def)

text \<open>
  C8, amended.  A rejected write propagates unchanged: \<open>updateStatsOnResult\<close> and
  \<open>toggleHardFlag\<close> fail with the very error of the store.  A rejected read does not
  propagate: \<open>getWordStats\<close> answers with the empty map and \<open>getStreak\<close> with 0,
  so \<open>updateStatsOnResult\<close> and \<open>toggleHardFlag\<close> go on and, when their write is
  not rejected, return normally, and \<open>buildDailyQueue\<close> and \<open>getProgressSummary\<close>
  return what they return for an empty store.
\<close>

theorem storage_failures:
  assumes "set_fault ioW = Some e"
    and "get_fault ioR = Some e'" and "set_fault ioR = None"
  shows "updateStatsOnResult z ioW st now w r = Inl e
       \<and> snd (toggleHardFlag members ioW st w) = Inl e
       \<and> getWordStats ioR st = Map.empty
       \<and> getStreak ioR slot = 0
       \<and> (\<exists>x. updateStatsOnResult z ioR st now w r = Inr x)
       \<and> (\<exists>y. snd (toggleHardFlag members ioR st w) = Inr y)
       \<and> buildDailyQueue z members ioR st now rnd words dailyGoal
           = buildDailyQueue z members noFaults None now rnd words dailyGoal
       \<and> getProgressSummary members pct ioR io' st slot now words
           = getProgressSummary members pct noFaults io' None slot now words"
proof -
  note g = getWordStats_rejected [OF assms(2)] getWordStats_nothing
  have "updateStatsOnResult z ioW st now w r = Inl e"
    by (rule updateStatsOnResult_fail [OF assms(1)])
  moreover have "snd (toggleHardFlag members ioW st w) = Inl e"
    by (rule toggleHardFlag_fail [OF assms(1)])
  moreover have "getStreak ioR slot = 0"
    using assms(2) by (simp add: getStreak_def idb_get_def)
  moreover have "\<exists>x. updateStatsOnResult z ioR st now w r = Inr x"
    using updateStatsOnResult_ok [OF assms(3), of z st now w r] by blast
  moreover have "\<exists>y. snd (toggleHardFlag members ioR st w) = Inr y"
    by (rule toggleHardFlag_ok [OF assms(3)])
  moreover have "buildDailyQueue z members ioR st now rnd words dailyGoal
           = buildDailyQueue z members noFaults None now rnd words dailyGoal"
    unfolding buildDailyQueue_def g by (rule refl)
  moreover have "getProgressSummary members pct ioR io' st slot now words
           = getProgressSummary members pct noFaults io' None slot now words"
    unfolding getProgressSummary_def g by (rule refl)
  ultimately show ?thesis
    using g(1) by simp
qed

theorem storage_failures_witness:
  "set_fault writeFails = Some (StorageError ''write rejected'')
   \<and> get_fault readFails = Some (StorageError ''read rejected'')
   \<and> set_fault readFails = None
   \<and> updateStatsOnResult utc writeFails (Some [''hola'' \<mapsto> mkStats ''hola'' 2 1 13]) day11
        ''hola'' Correct = Inl (StorageError ''write rejected'')
   \<and> snd (toggleHardFlag pristine writeFails (Some [''hola'' \<mapsto> mkStats ''hola'' 2 1 13])
             ''hola'')
        = Inl (StorageError ''write rejected'')
   \<and> getWordStats readFails (Some [''hola'' \<mapsto> mkStats ''hola'' 2 1 13]) = Map.empty
   \<and> wordsNew (getProgressSummary pristine (\<lambda>c s. 0) readFails readFails
                  (Some [''hola'' \<mapsto> mkStats ''hola'' 2 1 13]) (Some 4) day11
                  [mkWord ''hola'' ''Greetings'']) = 1"
proof -
  have f: "set_fault writeFails = Some (StorageError ''write rejected'')"
    "get_fault readFails = Some (StorageError ''read rejected'')"
    "set_fault readFails = None"
    by (simp_all add: writeFails_def readFails_def)
  have n: "wordsNew (getProgressSummary pristine (\<lambda>c s. 0) noFaults readFails None (Some 4)
                       day11 [mkWord ''hola'' ''Greetings'']) = 1"
    by (simp add: getProgressSummary_def getWordStats_nothing tallyWord_def tallyNew_def
        noneTallied_def lookupStats_def mkWord_def objectPrototypeKeys_def Let_def)
  from storage_failures [where z = utc and now = day11 and w = "''hola''" and r = Correct
        and st = "Some [''hola'' \<mapsto> mkStats ''hola'' 2 1 13]" and members = pristine
        and slot = "Some 4" and pct = "\<lambda>c s. 0" and io' = readFails
        and words = "[mkWord ''hola'' ''Greetings'']", OF f]
  show ?thesis
    using f n by simp
qed

section \<open>Facts about the assembled queue\<close>

lemma buildDailyQueue_fields:
  assumes "b = classify z members (getWordStats io st) now words"
    and "sel = take (nat (max 0 (dailyGoal - priorityCount b)))
                 (fst (shuffleArray rnd 0 (newWords_b b)))"
    and "rest = filter (\<lambda>w. w \<notin> set (dueWords_b b) \<and> w \<notin> set (recentlyWrong_b b)
                             \<and> w \<notin> set (hardWords_b b)) (seenWords_b b)"
    and "q = buildDailyQueue z members io st now rnd words dailyGoal"
  shows "newWords q = sel"
    and "\<exists>k. mixedReview q
               = take (nat (max 0 (dailyGoal - priorityCount b - int (length sel))))
                   (fst (shuffleArray rnd k rest))"
    and "\<exists>k. dueWords q = fst (shuffleArray rnd k (dueWords_b b))"
    and "\<exists>k. recentlyWrong q = fst (shuffleArray rnd k (recentlyWrong_b b))"
    and "\<exists>k. hardWords q = fst (shuffleArray rnd k (hardWords_b b))"
    and "total q = length (dueWords_b b) + length (recentlyWrong_b b)
                     + length (hardWords_b b) + length sel + length (mixedReview q)"
    and "estimatedMinutes q = (total q + 1) div 2"
  unfolding assms buildDailyQueue_def Let_def case_prod_beta
  by (simp_all, blast+)

lemma card_union3_le:
  "int (card (set xs \<union> set ys \<union> set zs))
     \<le> int (length xs) + int (length ys) + int (length zs)"
proof -
  have "card (set xs \<union> set ys \<union> set zs) \<le> card (set xs \<union> set ys) + card (set zs)"
    by (rule card_Un_le)
  also have "\<dots> \<le> card (set xs) + card (set ys) + card (set zs)"
    by (simp add: card_Un_le)
  also have "\<dots> \<le> length xs + length ys + length zs"
    by (simp add: add_mono card_length)
  finally show ?thesis
    by simp
qed

lemma smallCorpus_buckets:
  "filter (dueWord pristine smallStats day11) smallCorpus = [mkWord ''hola'' ''Greetings'']"
  "filter (wrongWord utc pristine smallStats day11) smallCorpus = [mkWord ''hola'' ''Greetings'']"
  "filter (hardWord pristine smallStats) smallCorpus = [mkWord ''hola'' ''Greetings'']"
  "filter (\<lambda>w. \<not> seenWord pristine smallStats w) smallCorpus
     = [mkWord ''adios'' ''Greetings'', mkWord ''gato'' ''Animals'']"
  by (simp_all add: dueWord_def wrongWord_def hardWord_def seenWord_def lookupStats_def
      objectPrototypeKeys_def smallStats_def smallCorpus_def mkWord_def mkStats_def
      isDue_def wasWrongRecently_def parseDate_def addDays_utc getTodayString_def
      day11_def msPerDay_def)

section \<open>Claims about the assembled queue\<close>

text \<open>
  C3.  The claim says that the priority count counts an item once even when it is in
  several of the three priority buckets, and the queue is documented to add new words
  to meet the daily goal.  The count is the sum of the three bucket lengths.  The one
  seen word of the small corpus is due, recently wrong and flagged hard: it is counted
  three times, and with a daily goal of 3 no new word is added although two new words
  are available and one distinct priority item is all there is.
\<close>

theorem priority_count_counts_thrice:
  "priorityCount (classify utc pristine smallStats day11 smallCorpus) = 3
   \<and> card (set (dueWords_b (classify utc pristine smallStats day11 smallCorpus))
            \<union> set (recentlyWrong_b (classify utc pristine smallStats day11 smallCorpus))
            \<union> set (hardWords_b (classify utc pristine smallStats day11 smallCorpus))) = 1
   \<and> length (newWords_b (classify utc pristine smallStats day11 smallCorpus)) = 2
   \<and> newWords (buildDailyQueue utc pristine noFaults (Some smallStats) day11 (\<lambda>k. 0)
                 smallCorpus 3) = []
   \<and> total (buildDailyQueue utc pristine noFaults (Some smallStats) day11 (\<lambda>k. 0)
                 smallCorpus 3) = 3"
proof -
  have g: "classify utc pristine smallStats day11 smallCorpus
             = classify utc pristine (getWordStats noFaults (Some smallStats)) day11 smallCorpus"
    by (simp add: getWordStats_def idb_get_def noFaults_def)
  have p: "priorityCount (classify utc pristine smallStats day11 smallCorpus) = 3"
    by (simp add: priorityCount_def classify_buckets smallCorpus_buckets)
  note f = buildDailyQueue_fields [OF g refl refl refl, of "\<lambda>k. 0" 3]
  have n: "newWords (buildDailyQueue utc pristine noFaults (Some smallStats) day11 (\<lambda>k. 0)
                 smallCorpus 3) = []"
    unfolding f(1) by (simp add: p)
  have m: "mixedReview (buildDailyQueue utc pristine noFaults (Some smallStats) day11 (\<lambda>k. 0)
                 smallCorpus 3) = []"
    using f(2) by (auto simp: p)
  have t: "total (buildDailyQueue utc pristine noFaults (Some smallStats) day11 (\<lambda>k. 0)
                 smallCorpus 3) = 3"
    unfolding f(6) by (simp add: m p classify_buckets smallCorpus_buckets)
  from p n t show ?thesis
    by (simp add: classify_buckets smallCorpus_buckets)
qed

text \<open>
  C9.  Whenever the daily goal does not exceed the priority count (as the code counts
  it, or as the number of distinct priority items, which is no larger), the queue holds
  every due word of the corpus, in some order, no new word and no mixed-review word; its
  total is the priority count of the code, so it may exceed the goal.
\<close>

theorem small_goal_keeps_all_due:
  assumes "allStats = getWordStats io st"
    and "b = classify z members allStats now words"
    and "q = buildDailyQueue z members io st now rnd words dailyGoal"
    and "dailyGoal \<le> priorityCount b
         \<or> dailyGoal \<le> int (card (set (dueWords_b b) \<union> set (recentlyWrong_b b)
                                    \<union> set (hardWords_b b)))"
  shows "mset (dueWords q) = mset (filter (dueWord members allStats now) words)
       \<and> newWords q = []
       \<and> mixedReview q = []
       \<and> int (total q) = priorityCount b
       \<and> dailyGoal \<le> int (total q)"
proof -
  have le: "dailyGoal \<le> priorityCount b"
    using assms(4) card_union3_le [of "dueWords_b b" "recentlyWrong_b b" "hardWords_b b"]
    by (auto simp: priorityCount_def)
  have b: "b = classify z members (getWordStats io st) now words"
    by (simp add: assms(1,2))
  note f = buildDailyQueue_fields [OF b refl refl assms(3)]
  have n: "newWords q = []"
    using f(1) le by simp
  have m: "mixedReview q = []"
    using f(2) le by auto
  obtain k where "dueWords q = fst (shuffleArray rnd k (dueWords_b b))"
    using f(3) by blast
  then have d: "mset (dueWords q) = mset (filter (dueWord members allStats now) words)"
    by (simp add: shuffleArray_mset assms(2) classify_buckets)
  have t: "int (total q) = priorityCount b"
    using f(6) le by (simp add: m priorityCount_def)
  from d n m t le show ?thesis
    by simp
qed

theorem small_goal_keeps_all_due_witness:
  "5 \<le> priorityCount (classify utc pristine tenStats day11 tenCorpus)
   \<and> length (filter (dueWord pristine tenStats day11) tenCorpus) = 10
   \<and> mset (dueWords (buildDailyQueue utc pristine noFaults (Some tenStats) day11 (\<lambda>k. k)
                       tenCorpus 5))
       = mset tenCorpus
   \<and> newWords (buildDailyQueue utc pristine noFaults (Some tenStats) day11 (\<lambda>k. k)
                 tenCorpus 5) = []
   \<and> mixedReview (buildDailyQueue utc pristine noFaults (Some tenStats) day11 (\<lambda>k. k)
                    tenCorpus 5) = []
   \<and> total (buildDailyQueue utc pristine noFaults (Some tenStats) day11 (\<lambda>k. k)
              tenCorpus 5) = 10"
proof -
  have g: "tenStats = getWordStats noFaults (Some tenStats)"
    by (simp add: getWordStats_def idb_get_def noFaults_def)
  have d: "filter (dueWord pristine tenStats day11) tenCorpus = tenCorpus"
    by (simp add: dueWord_def lookupStats_def tenStats_def tenCorpus_def tenIds_def
        mkWord_def mkStats_def isDue_def parseDate_def getTodayString_def day11_def
        msPerDay_def)
  have w: "filter (wrongWord utc pristine tenStats day11) tenCorpus = []"
    by (simp add: wrongWord_def lookupStats_def tenStats_def tenCorpus_def tenIds_def
        mkWord_def mkStats_def wasWrongRecently_def)
  have h: "filter (hardWord pristine tenStats) tenCorpus = []"
    by (simp add: hardWord_def lookupStats_def tenStats_def tenCorpus_def tenIds_def
        mkWord_def mkStats_def)
  have l: "length tenCorpus = 10"
    by (simp add: tenCorpus_def tenIds_def)
  have p: "priorityCount (classify utc pristine tenStats day11 tenCorpus) = 10"
    by (simp add: priorityCount_def classify_buckets d w h l)
  have a: "5 \<le> priorityCount (classify utc pristine tenStats day11 tenCorpus)
         \<or> 5 \<le> int (card (set (dueWords_b (classify utc pristine tenStats day11 tenCorpus))
                    \<union> set (recentlyWrong_b (classify utc pristine tenStats day11 tenCorpus))
                    \<union> set (hardWords_b (classify utc pristine tenStats day11 tenCorpus))))"
    by (simp add: p)
  show ?thesis
    using small_goal_keeps_all_due [OF g refl refl a, of "\<lambda>k. k"]
    by (simp add: p d l)
qed

section \<open>Facts about grouping and interleaving\<close>

subsection \<open>Rounds\<close>

lemma emitPass_append:
  "emitPass byCategory i result cats = result @ roundOf (ownGroups byCategory cats) i"
  by (induction cats arbitrary: result)
     (simp_all add: roundOf_def ownGroups_def split: option.splits)

lemma rounds_Suc: "rounds gs (Suc k) = rounds gs k @ roundOf gs k"
  by (simp add: rounds_def)

lemma mset_roundOf_take:
  "mset (concat (map (take k) gs)) + mset (roundOf gs k)
     = mset (concat (map (take (Suc k)) gs))"
proof (induction gs)
  case Nil
  show ?case by (simp add: roundOf_def)
next
  case (Cons g gs)
  have r: "roundOf (g # gs) k = (if k < length g then [g ! k] else []) @ roundOf gs k"
    by (simp add: roundOf_def)
  have t: "mset (take (Suc k) g) = mset (take k g) + mset (if k < length g then [g ! k] else [])"
    by (simp add: take_Suc_conv_app_nth)
  show ?case
    using Cons.IH by (simp only: r t list.map concat.simps mset_append) (simp add: ac_simps)
qed

lemma mset_rounds: "mset (rounds gs k) = mset (concat (map (take k) gs))"
proof (induction k)
  case 0
  show ?case by (simp add: rounds_def)
next
  case (Suc k)
  show ?case
    by (simp only: rounds_Suc mset_append Suc.IH mset_roundOf_take)
qed

lemma length_rounds: "length (rounds gs k) = length (concat (map (take k) gs))"
  using mset_rounds [of gs k] by (rule mset_eq_length)

lemma take_longest: "longest gs \<le> k \<Longrightarrow> map (take k) gs = gs"
  by (induction gs) (simp_all add: longest_def)

lemma length_concat_take_le: "length (concat (map (take k) gs)) \<le> length (concat gs)"
  by (induction gs) (simp_all add: add_mono)

lemma length_concat_take_less:
  "k < longest gs \<Longrightarrow> length (concat (map (take k) gs)) < length (concat gs)"
proof (induction gs)
  case Nil
  then show ?case by (simp add: longest_def)
next
  case (Cons g gs)
  from Cons.prems have "k < length g \<or> k < longest gs"
    by (auto simp: longest_def)
  then show ?case
  proof
    assume "k < length g"
    then have "length (take k g) < length g"
      by simp
    with length_concat_take_le [of k gs] show ?thesis
      by simp
  next
    assume "k < longest gs"
    from Cons.IH [OF this] show ?thesis
      by (simp add: add_le_less_mono)
  qed
qed

lemma mset_roundRobin: "mset (roundRobin gs) = mset (concat gs)"
  by (simp add: roundRobin_def mset_rounds take_longest)

subsection \<open>The loop returns\<close>

lemma interleaveLoop_from:
  assumes "gs = ownGroups byCategory cats" and "n = length (concat gs)"
  shows "index \<le> longest gs
         \<Longrightarrow> interleaveLoop cats byCategory n index (rounds gs index) = Some (roundRobin gs)"
proof (induction "longest gs - index" arbitrary: index)
  case 0
  then have "index = longest gs"
    by simp
  then have "length (rounds gs index) = n"
    by (simp add: length_rounds take_longest assms(2))
  then show ?case
    by (subst interleaveLoop.simps) (simp add: roundRobin_def \<open>index = longest gs\<close>)
next
  case (Suc d)
  then have lt: "index < longest gs"
    by simp
  then have "length (rounds gs index) < n"
    by (simp add: length_rounds assms(2) length_concat_take_less)
  then have "interleaveLoop cats byCategory n index (rounds gs index)
               = interleaveLoop cats byCategory n (Suc index) (rounds gs (Suc index))"
    by (subst interleaveLoop.simps) (simp add: emitPass_append rounds_Suc assms(1))
  also have "\<dots> = Some (roundRobin gs)"
    using Suc.hyps(1) [of "Suc index"] Suc.hyps(2) lt by simp
  finally show ?case .
qed

lemma interleaveLoop_returns:
  assumes "n = length (concat (ownGroups byCategory cats))"
  shows "interleaveLoop cats byCategory n 0 [] = Some (roundRobin (ownGroups byCategory cats))"
  using interleaveLoop_from [OF refl assms, of 0] by (simp add: rounds_def)

subsection \<open>Grouping\<close>

lemma groupWord_invariant:
  assumes "distinct (map fst ps)"
    and "\<forall>c. map_of ps c
              = (if c \<in> category ` set ws then Some (categoryGroup ws c) else None)"
    and "category w \<notin> set objectPrototypeKeys"
  shows "\<exists>ps'. groupWord ps w = Inr ps' \<and> distinct (map fst ps')
           \<and> (\<forall>c. map_of ps' c
                    = (if c \<in> category ` set (ws @ [w])
                       then Some (categoryGroup (ws @ [w]) c) else None))"
proof (cases "map_of ps (category w)")
  case None
  then have new: "category w \<notin> category ` set ws" and key: "category w \<notin> fst ` set ps"
    using assms(2) by (auto simp: map_of_eq_None_iff split: if_splits)
  have empty: "categoryGroup ws (category w) = []"
  proof -
    have "\<forall>x\<in>set ws. category x \<noteq> category w"
      using new by (metis imageI)
    then show ?thesis
      by (simp add: categoryGroup_def filter_empty_conv)
  qed
  have "groupWord ps w = Inr (ps @ [(category w, [w])])"
    using None assms(3) by (simp add: groupWord_def)
  moreover have "distinct (map fst (ps @ [(category w, [w])]))"
    using assms(1) key by simp
  moreover have "map_of (ps @ [(category w, [w])]) c
                   = (if c \<in> category ` set (ws @ [w])
                      then Some (categoryGroup (ws @ [w]) c) else None)" for c
  proof (cases "c = category w")
    case True
    then show ?thesis
      using None empty by (simp add: map_of_append map_add_def categoryGroup_def)
  next
    case False
    then show ?thesis
      using assms(2) by (auto simp: map_of_append map_add_def categoryGroup_def)
  qed
  ultimately show ?thesis
    by blast
next
  case (Some g)
  then have g: "g = categoryGroup ws (category w)" and old: "category w \<in> category ` set ws"
    using assms(2) by (auto split: if_splits)
  have "groupWord ps w = Inr (AList.update (category w) (g @ [w]) ps)"
    using Some by (simp add: groupWord_def)
  moreover have "distinct (map fst (AList.update (category w) (g @ [w]) ps))"
    using assms(1) by (simp add: distinct_update)
  moreover have "map_of (AList.update (category w) (g @ [w]) ps) c
                   = (if c \<in> category ` set (ws @ [w])
                      then Some (categoryGroup (ws @ [w]) c) else None)" for c
    using assms(2) old by (auto simp: update_conv' g categoryGroup_def)
  ultimately show ?thesis
    by blast
qed

lemma groupWords_invariant:
  assumes "distinct (map fst ps)"
    and "\<forall>c. map_of ps c
              = (if c \<in> category ` set ws then Some (categoryGroup ws c) else None)"
    and "\<forall>w\<in>set words. category w \<notin> set objectPrototypeKeys"
  shows "\<exists>ps'. groupWords ps words = Inr ps' \<and> distinct (map fst ps')
           \<and> (\<forall>c. map_of ps' c
                    = (if c \<in> category ` set (ws @ words)
                       then Some (categoryGroup (ws @ words) c) else None))"
  using assms
proof (induction words arbitrary: ps ws)
  case Nil
  then show ?case by simp
next
  case (Cons w words)
  from Cons.prems(3) have w: "category w \<notin> set objectPrototypeKeys"
    and rest: "\<forall>w\<in>set words. category w \<notin> set objectPrototypeKeys"
    by simp_all
  from groupWord_invariant [OF Cons.prems(1,2) w]
  obtain ps' where step: "groupWord ps w = Inr ps'" and d: "distinct (map fst ps')"
    and m: "\<forall>c. map_of ps' c
                  = (if c \<in> category ` set (ws @ [w])
                     then Some (categoryGroup (ws @ [w]) c) else None)"
    by blast
  have e: "(ws @ [w]) @ words = ws @ w # words"
    by simp
  from Cons.IH [OF d m rest] show ?case
    unfolding e by (simp only: groupWords.simps step sum.simps)
qed

lemma groupWord_keys:
  "groupWord ps w = Inr ps' \<Longrightarrow> fst ` set ps' = insert (category w) (fst ` set ps)"
proof (cases "map_of ps (category w)")
  case None
  assume "groupWord ps w = Inr ps'"
  with None have "ps' = ps @ [(category w, [w])]"
    by (simp add: groupWord_def split: if_splits)
  then show ?thesis
    by auto
next
  case (Some g)
  assume "groupWord ps w = Inr ps'"
  with Some have "ps' = AList.update (category w) (g @ [w]) ps"
    by (simp add: groupWord_def)
  then show ?thesis
    by (simp add: dom_update)
qed

lemma groupWords_TypeError:
  assumes "\<exists>w\<in>set words. category w \<in> set objectPrototypeKeys"
    and "\<forall>c\<in>fst ` set ps. c \<notin> set objectPrototypeKeys"
  shows "groupWords ps words = Inl TypeError"
  using assms
proof (induction words arbitrary: ps)
  case Nil
  then show ?case by simp
next
  case (Cons w words)
  show ?case
  proof (cases "category w \<in> set objectPrototypeKeys")
    case True
    with Cons.prems(2) have "map_of ps (category w) = None"
      by (auto simp: map_of_eq_None_iff)
    with True show ?thesis
      by (simp add: groupWord_def)
  next
    case False
    with Cons.prems(1) have rest: "\<exists>w\<in>set words. category w \<in> set objectPrototypeKeys"
      by auto
    show ?thesis
    proof (cases "groupWord ps w")
      case (Inl e)
      then show ?thesis
        by (cases e) simp
    next
      case (Inr ps')
      from groupWord_keys [OF Inr] False Cons.prems(2)
      have "\<forall>c\<in>fst ` set ps'. c \<notin> set objectPrototypeKeys"
        by auto
      from Cons.IH [OF rest this] Inr show ?thesis
        by simp
    qed
  qed
qed

subsection \<open>The keys of the dictionary and the interleaver\<close>

lemma objectKeys_set: "set (objectKeys ps) = fst ` set ps"
  by (auto simp: objectKeys_def Let_def)

lemma objectKeys_distinct: "distinct (map fst ps) \<Longrightarrow> distinct (objectKeys ps)"
  by (auto simp: objectKeys_def Let_def)

lemma mset_filter_key_split:
  "k \<notin> set ks
   \<Longrightarrow> mset (filter (\<lambda>w. f w = k) ws) + mset (filter (\<lambda>w. f w \<in> set ks) ws)
       = mset (filter (\<lambda>w. f w = k \<or> f w \<in> set ks) ws)"
  by (induction ws) auto

lemma mset_category_groups:
  "distinct ks
   \<Longrightarrow> mset (concat (map (categoryGroup ws) ks)) = mset (filter (\<lambda>w. category w \<in> set ks) ws)"
proof (induction ks)
  case Nil
  show ?case by simp
next
  case (Cons k ks)
  then have "k \<notin> set ks" and "distinct ks"
    by simp_all
  with Cons.IH mset_filter_key_split [of k ks category ws] show ?case
    by (simp add: categoryGroup_def)
qed

lemma interleaveByCategory_returns:
  assumes "\<forall>w\<in>set words. category w \<notin> set objectPrototypeKeys"
  shows "\<exists>byCategory.
           groupWords [] words = Inr byCategory
         \<and> distinct (objectKeys byCategory)
         \<and> set (objectKeys byCategory) = category ` set words
         \<and> interleaveByCategory words
             = Some (Inr (roundRobin (map (categoryGroup words) (objectKeys byCategory))))
         \<and> mset (roundRobin (map (categoryGroup words) (objectKeys byCategory)))
             = mset words"
proof -
  from groupWords_invariant [of "[]" "[]" words] assms
  obtain ps where grp: "groupWords [] words = Inr ps" and d: "distinct (map fst ps)"
    and m: "\<forall>c. map_of ps c
                  = (if c \<in> category ` set words then Some (categoryGroup words c) else None)"
    by auto
  define ks where "ks = objectKeys ps"
  have keys: "fst ` set ps = category ` set words"
  proof -
    have "dom (map_of ps) = category ` set words"
      using m by (auto simp: dom_def)
    then show ?thesis
      by (simp add: dom_map_of_conv_image_fst)
  qed
  have dk: "distinct ks" and sk: "set ks = category ` set words"
    by (simp_all add: ks_def objectKeys_distinct [OF d] objectKeys_set keys)
  have gs: "ownGroups ps ks = map (categoryGroup words) ks"
    using m sk by (auto simp: ownGroups_def)
  have all: "mset (concat (map (categoryGroup words) ks)) = mset words"
    by (simp add: mset_category_groups [OF dk] sk)
  then have n: "length words = length (concat (ownGroups ps ks))"
    unfolding gs by (metis mset_eq_length)
  have "interleaveByCategory words = Some (Inr (roundRobin (map (categoryGroup words) ks)))"
    using interleaveLoop_returns [OF n]
    by (simp add: interleaveByCategory_def grp gs ks_def [symmetric])
  moreover have "mset (roundRobin (map (categoryGroup words) ks)) = mset words"
    by (simp add: mset_roundRobin all)
  ultimately show ?thesis
    using dk sk grp unfolding ks_def by blast
qed

lemma interleaveByCategory_throws:
  assumes "\<exists>w\<in>set words. category w \<in> set objectPrototypeKeys"
  shows "interleaveByCategory words = Some (Inl TypeError)"
  using groupWords_TypeError [OF assms, of "[]"] by (simp add: interleaveByCategory_def)


section \<open>Claims about the lists of the queue and the interleaver\<close>

text \<open>
  C4.  The claim says that in the queue returned by \<open>buildDailyQueue\<close> every selected
  item is in exactly one of the five lists.  The three priority lists are filled
  independently of each other: the seen word of the small corpus, which is due, recently
  wrong and flagged hard, is in all three.
\<close>

theorem queue_lists_overlap_counterexample:
  "dueWords (buildDailyQueue utc pristine noFaults (Some smallStats) day11 (\<lambda>k. 0)
               smallCorpus 3)
     = [mkWord ''hola'' ''Greetings'']
   \<and> recentlyWrong (buildDailyQueue utc pristine noFaults (Some smallStats) day11 (\<lambda>k. 0)
                      smallCorpus 3)
     = [mkWord ''hola'' ''Greetings'']
   \<and> hardWords (buildDailyQueue utc pristine noFaults (Some smallStats) day11 (\<lambda>k. 0)
                  smallCorpus 3)
     = [mkWord ''hola'' ''Greetings'']"
proof -
  have g: "classify utc pristine smallStats day11 smallCorpus
             = classify utc pristine (getWordStats noFaults (Some smallStats)) day11 smallCorpus"
    by (simp add: getWordStats_def idb_get_def noFaults_def)
  note f = buildDailyQueue_fields [OF g refl refl refl, of "\<lambda>k. 0" 3]
  from f(3) f(4) f(5) show ?thesis
    by (auto simp: classify_buckets smallCorpus_buckets shuffleArray_single)
qed

text \<open>
  C4, amended.  For a corpus without repeated identifiers: each of the three priority
  lists of the queue holds exactly the words of the corpus that satisfy its predicate,
  so a word that satisfies several of them is in several lists; the new list holds
  only unseen words and the mixed-review list only seen words that satisfy none of the
  three predicates.  The precedence due, recently wrong, hard, new, mixed is applied
  where \<open>getDailySessionQueue\<close> flattens the queue: the flattened list is the due list,
  then the recently wrong words that are not due, then the hard words that are neither
  due nor recently wrong, then the new list, then the mixed-review list.  It holds
  every word of the five lists exactly once, and the session queue is a rearrangement
  of it, unless the interleaver fails on a category that names an inherited member.
\<close>

theorem queue_lists_flat_dedup:
  assumes "distinct (map id_w words)"
    and "allStats = getWordStats io st"
    and "q = buildDailyQueue z members io st now rnd words dailyGoal"
  shows "set (dueWords q) = {w \<in> set words. dueWord members allStats now w}
       \<and> set (recentlyWrong q) = {w \<in> set words. wrongWord z members allStats now w}
       \<and> set (hardWords q) = {w \<in> set words. hardWord members allStats w}
       \<and> set (newWords q) \<subseteq> {w \<in> set words. \<not> seenWord members allStats w}
       \<and> set (mixedReview q)
           \<subseteq> {w \<in> set words. seenWord members allStats w
                  \<and> \<not> dueWord members allStats now w
                  \<and> \<not> wrongWord z members allStats now w \<and> \<not> hardWord members allStats w}
       \<and> (\<exists>r h. prioritized q = dueWords q @ r @ h @ newWords q @ mixedReview q
                 \<and> set r = {w \<in> set words. wrongWord z members allStats now w
                                \<and> \<not> dueWord members allStats now w}
                 \<and> set h = {w \<in> set words. hardWord members allStats w
                                \<and> \<not> dueWord members allStats now w
                                \<and> \<not> wrongWord z members allStats now w})
       \<and> distinct (prioritized q)
       \<and> set (prioritized q)
           = set (dueWords q) \<union> set (recentlyWrong q) \<union> set (hardWords q)
               \<union> set (newWords q) \<union> set (mixedReview q)
       \<and> ((\<exists>flat. getDailySessionQueue z members io st now rnd words dailyGoal
                     = Some (Inr flat)
                   \<and> mset flat = mset (prioritized q))
           \<or> (getDailySessionQueue z members io st now rnd words dailyGoal
                 = Some (Inl TypeError)
               \<and> (\<exists>c. c \<in> category ` set (prioritized q) \<and> c \<in> set objectPrototypeKeys)))"
proof -
  define b where "b = classify z members allStats now words"
  have b: "b = classify z members (getWordStats io st) now words"
    by (simp add: b_def assms(2))
  note f = buildDailyQueue_fields [OF b refl refl assms(3)]
  note cb = classify_buckets [of z members allStats now words, folded b_def]
  have dw: "distinct words"
    using assms(1) by (simp add: distinct_map)
  have seen: "dueWord members allStats now w \<Longrightarrow> seenWord members allStats w"
    "wrongWord z members allStats now w \<Longrightarrow> seenWord members allStats w"
    "hardWord members allStats w \<Longrightarrow> seenWord members allStats w" for w
    by (cases "lookupStats members allStats (id_w w)";
        simp add: dueWord_def wrongWord_def hardWord_def seenWord_def)+
  obtain k3 where "dueWords q = fst (shuffleArray rnd k3 (dueWords_b b))"
    using f(3) by blast
  then have D: "set (dueWords q) = {w \<in> set words. dueWord members allStats now w}"
    and dD: "distinct (dueWords q)"
    using dw by (simp_all add: shuffleArray_set shuffleArray_distinct cb)
  obtain k4 where "recentlyWrong q = fst (shuffleArray rnd k4 (recentlyWrong_b b))"
    using f(4) by blast
  then have W: "set (recentlyWrong q) = {w \<in> set words. wrongWord z members allStats now w}"
    and dW: "distinct (recentlyWrong q)"
    using dw by (simp_all add: shuffleArray_set shuffleArray_distinct cb)
  obtain k5 where "hardWords q = fst (shuffleArray rnd k5 (hardWords_b b))"
    using f(5) by blast
  then have H: "set (hardWords q) = {w \<in> set words. hardWord members allStats w}"
    and dH: "distinct (hardWords q)"
    using dw by (simp_all add: shuffleArray_set shuffleArray_distinct cb)
  have "set (newWords q) \<subseteq> set (fst (shuffleArray rnd 0 (newWords_b b)))"
    unfolding f(1) by (rule set_take_subset)
  then have N: "set (newWords q) \<subseteq> {w \<in> set words. \<not> seenWord members allStats w}"
    by (simp add: shuffleArray_set cb)
  have dN: "distinct (newWords q)"
    unfolding f(1) using dw by (simp add: shuffleArray_distinct cb)
  obtain k2 where m: "mixedReview q
      = take (nat (max 0 (dailyGoal - priorityCount b - int (length (newWords q)))))
          (fst (shuffleArray rnd k2
             (filter (\<lambda>w. w \<notin> set (dueWords_b b) \<and> w \<notin> set (recentlyWrong_b b)
                          \<and> w \<notin> set (hardWords_b b)) (seenWords_b b))))"
    using f(2) f(1) by auto
  have "set (mixedReview q)
          \<subseteq> set (fst (shuffleArray rnd k2
             (filter (\<lambda>w. w \<notin> set (dueWords_b b) \<and> w \<notin> set (recentlyWrong_b b)
                          \<and> w \<notin> set (hardWords_b b)) (seenWords_b b))))"
    unfolding m by (rule set_take_subset)
  then have M: "set (mixedReview q)
           \<subseteq> {w \<in> set words. seenWord members allStats w
                  \<and> \<not> dueWord members allStats now w
                  \<and> \<not> wrongWord z members allStats now w \<and> \<not> hardWord members allStats w}"
    by (auto simp: shuffleArray_set cb)
  have dM: "distinct (mixedReview q)"
    unfolding m using dw by (simp add: shuffleArray_distinct cb)
  define r where "r = filter (\<lambda>w. w \<notin> set (dueWords q)) (recentlyWrong q)"
  define h where "h = filter (\<lambda>w. w \<notin> set (dueWords q) \<and> w \<notin> set (recentlyWrong q))
                        (hardWords q)"
  have P: "prioritized q = dueWords q @ r @ h @ newWords q @ mixedReview q"
    by (simp add: prioritized_def r_def h_def)
  have R: "set r = {w \<in> set words. wrongWord z members allStats now w
                       \<and> \<not> dueWord members allStats now w}"
    unfolding r_def using D W by auto
  have Hs: "set h = {w \<in> set words. hardWord members allStats w
                        \<and> \<not> dueWord members allStats now w
                        \<and> \<not> wrongWord z members allStats now w}"
    unfolding h_def using D W H by auto
  have dr: "distinct r" and dh: "distinct h"
    using dW dH by (simp_all add: r_def h_def)
  have dP: "distinct (prioritized q)"
    unfolding P distinct_append
    using dD dr dh dN dM D R Hs N M seen by (simp add: set_eq_iff subset_iff) blast
  have sP: "set (prioritized q)
           = set (dueWords q) \<union> set (recentlyWrong q) \<union> set (hardWords q)
               \<union> set (newWords q) \<union> set (mixedReview q)"
    unfolding prioritized_def by auto
  have flat: "(\<exists>flat. getDailySessionQueue z members io st now rnd words dailyGoal
                     = Some (Inr flat)
                   \<and> mset flat = mset (prioritized q))
           \<or> (getDailySessionQueue z members io st now rnd words dailyGoal
                 = Some (Inl TypeError)
               \<and> (\<exists>c. c \<in> category ` set (prioritized q) \<and> c \<in> set objectPrototypeKeys))"
  proof (cases "\<exists>w\<in>set (prioritized q). category w \<in> set objectPrototypeKeys")
    case True
    from interleaveByCategory_throws [OF True] True show ?thesis
      by (auto simp: getDailySessionQueue_def assms(3) Let_def)
  next
    case False
    then have "\<forall>w\<in>set (prioritized q). category w \<notin> set objectPrototypeKeys"
      by simp
    from interleaveByCategory_returns [OF this] show ?thesis
      by (auto simp: getDailySessionQueue_def assms(3) Let_def)
  qed
  from P R Hs have "\<exists>r h. prioritized q = dueWords q @ r @ h @ newWords q @ mixedReview q
                 \<and> set r = {w \<in> set words. wrongWord z members allStats now w
                                \<and> \<not> dueWord members allStats now w}
                 \<and> set h = {w \<in> set words. hardWord members allStats w
                                \<and> \<not> dueWord members allStats now w
                                \<and> \<not> wrongWord z members allStats now w}"
    by blast
  with D W H N M dP sP flat show ?thesis
    by blast
qed

theorem queue_lists_flat_dedup_witness:
  "distinct (map id_w smallCorpus)
   \<and> distinct (prioritized (buildDailyQueue utc pristine noFaults (Some smallStats) day11
                              (\<lambda>k. 0) smallCorpus 5))
   \<and> map id_w (dueWords (buildDailyQueue utc pristine noFaults (Some smallStats) day11
                            (\<lambda>k. 0) smallCorpus 5))
       = [''hola'']
   \<and> map id_w (hardWords (buildDailyQueue utc pristine noFaults (Some smallStats) day11
                             (\<lambda>k. 0) smallCorpus 5))
       = [''hola'']
   \<and> map id_w (prioritized (buildDailyQueue utc pristine noFaults (Some smallStats) day11
                               (\<lambda>k. 0) smallCorpus 5))
       = [''hola'', ''gato'', ''adios'']
   \<and> map_option (map_sum id (map id_w))
        (getDailySessionQueue utc pristine noFaults (Some smallStats) day11 (\<lambda>k. 0)
           smallCorpus 5)
       = Some (Inr [''hola'', ''gato'', ''adios''])"
proof -
  have h: "distinct (map id_w smallCorpus)"
    by (simp add: smallCorpus_def mkWord_def)
  have g: "smallStats = getWordStats noFaults (Some smallStats)"
    by (simp add: getWordStats_def idb_get_def noFaults_def)
  have e: "map id_w (dueWords (buildDailyQueue utc pristine noFaults (Some smallStats) day11
                            (\<lambda>k. 0) smallCorpus 5))
       = [''hola'']"
    "map id_w (hardWords (buildDailyQueue utc pristine noFaults (Some smallStats) day11
                             (\<lambda>k. 0) smallCorpus 5))
       = [''hola'']"
    "map id_w (prioritized (buildDailyQueue utc pristine noFaults (Some smallStats) day11
                               (\<lambda>k. 0) smallCorpus 5))
       = [''hola'', ''gato'', ''adios'']"
    "map_option (map_sum id (map id_w))
        (getDailySessionQueue utc pristine noFaults (Some smallStats) day11 (\<lambda>k. 0)
           smallCorpus 5)
       = Some (Inr [''hola'', ''gato'', ''adios''])"
    by code_simp+
  from queue_lists_flat_dedup [OF h g refl, of utc pristine day11 "\<lambda>k. 0" 5] h e
  show ?thesis
    by blast
qed

text \<open>
  C10.  The claim says that the interleaver emits a permutation of every input.  The
  groups are kept in an object literal; for a word whose category names a member that
  every object inherits, the lookup \<^verbatim>\<open>byCategory[word.category]\<close> finds that member
  instead of \<^verbatim>\<open>undefined\<close>, no array is created, and the call of \<^verbatim>\<open>push\<close> throws a
  \<^verbatim>\<open>TypeError\<close>.
\<close>

theorem interleave_throws_on_inherited_key:
  "interleaveByCategory [mkWord ''hola'' ''Greetings'', mkWord ''clase'' ''constructor'']
     = Some (Inl TypeError)"
  by (simp add: interleaveByCategory_def groupWord_def mkWord_def objectPrototypeKeys_def)

text \<open>
  The interleaver on every other input.  When no category of the input names an
  inherited member, the grouping loop returns its dictionary and the interleaver
  returns the round-robin of the specification: the words are grouped by category, each
  group in the order of the input; the categories are the keys of the dictionary, each
  once, in the order of \<^verbatim>\<open>Object.keys\<close>; round \<open>i\<close> emits the word at position
  \<open>i\<close> of each group that has one; the rounds run until the longest group is used up.
  The result is a permutation of the input.
\<close>

theorem interleave_round_robin:
  assumes "\<forall>w\<in>set words. category w \<notin> set objectPrototypeKeys"
  shows "\<exists>byCategory.
           groupWords [] words = Inr byCategory
         \<and> distinct (objectKeys byCategory)
         \<and> set (objectKeys byCategory) = category ` set words
         \<and> interleaveByCategory words
             = Some (Inr (roundRobin (map (categoryGroup words) (objectKeys byCategory))))
         \<and> mset (roundRobin (map (categoryGroup words) (objectKeys byCategory)))
             = mset words"
  using assms by (rule interleaveByCategory_returns)

theorem interleave_round_robin_witness:
  "list_all (\<lambda>w. category w \<notin> set objectPrototypeKeys)
     [mkWord ''a'' ''x'', mkWord ''b'' ''x'', mkWord ''c'' ''y'', mkWord ''d'' ''2'',
      mkWord ''e'' ''10'', mkWord ''f'' ''x'']
   \<and> interleaveByCategory
       [mkWord ''a'' ''x'', mkWord ''b'' ''x'', mkWord ''c'' ''y'', mkWord ''d'' ''2'',
        mkWord ''e'' ''10'', mkWord ''f'' ''x'']
     = Some (Inr [mkWord ''d'' ''2'', mkWord ''e'' ''10'', mkWord ''a'' ''x'', mkWord ''c'' ''y'',
                  mkWord ''b'' ''x'', mkWord ''f'' ''x''])
   \<and> mset [mkWord ''d'' ''2'', mkWord ''e'' ''10'', mkWord ''a'' ''x'', mkWord ''c'' ''y'',
            mkWord ''b'' ''x'', mkWord ''f'' ''x'']
     = mset [mkWord ''a'' ''x'', mkWord ''b'' ''x'', mkWord ''c'' ''y'', mkWord ''d'' ''2'',
             mkWord ''e'' ''10'', mkWord ''f'' ''x'']"
proof -
  have h: "list_all (\<lambda>w. category w \<notin> set objectPrototypeKeys)
     [mkWord ''a'' ''x'', mkWord ''b'' ''x'', mkWord ''c'' ''y'', mkWord ''d'' ''2'',
      mkWord ''e'' ''10'', mkWord ''f'' ''x'']"
    by (simp add: mkWord_def objectPrototypeKeys_def)
  have e: "interleaveByCategory
       [mkWord ''a'' ''x'', mkWord ''b'' ''x'', mkWord ''c'' ''y'', mkWord ''d'' ''2'',
        mkWord ''e'' ''10'', mkWord ''f'' ''x'']
     = Some (Inr [mkWord ''d'' ''2'', mkWord ''e'' ''10'', mkWord ''a'' ''x'', mkWord ''c'' ''y'',
                  mkWord ''b'' ''x'', mkWord ''f'' ''x''])"
    by code_simp
  from h have "\<forall>w\<in>set [mkWord ''a'' ''x'', mkWord ''b'' ''x'', mkWord ''c'' ''y'',
                         mkWord ''d'' ''2'', mkWord ''e'' ''10'', mkWord ''f'' ''x''].
                 category w \<notin> set objectPrototypeKeys"
    by (simp only: list_all_iff)
  from interleave_round_robin [OF this] e h show ?thesis
    by auto
qed

end
